theory Spec2Isabelle
  imports Complex_Main "HOL-Library.Word"
begin

section \<open>Python values shared by the modules\<close>

text \<open>
  The program is Python 2: a \<open>str\<close> is a sequence of bytes, modelled as \<open>string\<close>;
  integers are unbounded, modelled as \<open>int\<close>. Every exception that a modelled
  statement can raise is a constructor of \<open>error\<close>, and a function that can raise
  returns \<open>error + 'a\<close> with \<open>Inl\<close> for the exception.
\<close>

datatype error =
    ValueError
  | OverflowError
  | IndexError
  | StructError
  | NotImplementedError

definition backslash :: char where
  "backslash = CHR 0x5C"

definition quote :: char where
  "quote = CHR 0x27"

definition newline :: char where
  "newline = CHR 0x0A"

section \<open>lib/utils.py: parse_page_numbers\<close>

subsection \<open>The string operations the function calls\<close>

text \<open>\<open>s.split(c)\<close> for a one-character separator: always at least one piece.\<close>

fun split_sep :: "char \<Rightarrow> string \<Rightarrow> string list" where
  "split_sep c [] = [[]]"
| "split_sep c (x # xs) =
     (if x = c then [] # split_sep c xs
      else (case split_sep c xs of
              [] \<Rightarrow> [[x]]
            | w # ws \<Rightarrow> (x # w) # ws))"

text \<open>
  \<open>s.split(c, 1)\<close> for a string that contains \<open>c\<close>: the part before the first
  \<open>c\<close> and the part after it.
\<close>

definition split_first :: "char \<Rightarrow> string \<Rightarrow> string \<times> string" where
  "split_first c s = (takeWhile (\<lambda>x. x \<noteq> c) s, drop 1 (dropWhile (\<lambda>x. x \<noteq> c) s))"

text \<open>
  \<open>int(s)\<close> and \<open>int(s, 10)\<close> on a \<open>str\<close>: surrounding whitespace is dropped,
  one sign is allowed, then at least one decimal digit and nothing else; anything
  else raises \<open>ValueError\<close>.
\<close>

definition is_space :: "char \<Rightarrow> bool" where
  "is_space c = (c \<in> set [CHR 0x20, CHR 0x09, CHR 0x0A, CHR 0x0B, CHR 0x0C, CHR 0x0D])"

definition strip :: "string \<Rightarrow> string" where
  "strip s = rev (dropWhile is_space (rev (dropWhile is_space s)))"

definition is_digit :: "char \<Rightarrow> bool" where
  "is_digit c = (c \<in> set ''0123456789'')"

definition digit_value :: "char \<Rightarrow> nat" where
  "digit_value c = of_char c - of_char CHR ''0''"

fun digits_value :: "nat \<Rightarrow> string \<Rightarrow> nat" where
  "digits_value acc [] = acc"
| "digits_value acc (c # cs) = digits_value (10 * acc + digit_value c) cs"

definition py_digits :: "string \<Rightarrow> error + nat" where
  "py_digits s =
     (if s \<noteq> [] \<and> list_all is_digit s then Inr (digits_value 0 s) else Inl ValueError)"

definition py_int :: "string \<Rightarrow> error + int" where
  "py_int s =
     (case strip s of
        [] \<Rightarrow> Inl ValueError
      | c # r \<Rightarrow>
          if c = CHR ''-'' then map_sum id (\<lambda>v. - int v) (py_digits r)
          else if c = CHR ''+'' then map_sum id int (py_digits r)
          else map_sum id int (py_digits (c # r)))"

text \<open>
  \<open>xrange(lo, hi)\<close> takes C longs: an end point outside the platform's \<open>long\<close>, or
  a range with more than \<open>sys.maxint\<close> items, raises \<open>OverflowError\<close>. The value
  of \<open>sys.maxint\<close> is that of a 64-bit build.
\<close>

definition sys_maxint :: int where
  "sys_maxint = 2 ^ 63 - 1"

definition fits_long :: "int \<Rightarrow> bool" where
  "fits_long v = (- sys_maxint - 1 \<le> v \<and> v \<le> sys_maxint)"

definition xrange :: "int \<Rightarrow> int \<Rightarrow> error + int list" where
  "xrange lo hi =
     (if fits_long lo \<and> fits_long hi \<and> hi - lo \<le> sys_maxint
      then Inr [lo..hi - 1] else Inl OverflowError)"

subsection \<open>The function\<close>

text \<open>
  The \<open>for page_range in pages.split(',')\<close> loop, with \<open>result\<close> as the
  accumulator. An exception leaves the loop at once.
\<close>

fun page_range_loop :: "int list \<Rightarrow> string list \<Rightarrow> error + int list" where
  "page_range_loop result [] = Inr result"
| "page_range_loop result (page_range # rest) =
     (if CHR ''-'' \<in> set page_range then
        (case split_first CHR ''-'' page_range of
           (xs, ys) \<Rightarrow>
             (case py_int xs of
                Inl e \<Rightarrow> Inl e
              | Inr x \<Rightarrow>
                  (case py_int ys of
                     Inl e \<Rightarrow> Inl e
                   | Inr y \<Rightarrow>
                       (case xrange x (y + 1) of
                          Inl e \<Rightarrow> Inl e
                        | Inr r \<Rightarrow> page_range_loop (result @ r) rest))))
      else
        (case py_int page_range of
           Inl e \<Rightarrow> Inl e
         | Inr v \<Rightarrow> page_range_loop (result @ [v]) rest))"

text \<open>\<open>None\<close> in, \<open>None\<close> out; otherwise the list the loop builds.\<close>

definition parse_page_numbers :: "string option \<Rightarrow> error + int list option" where
  "parse_page_numbers pages =
     (case pages of
        None \<Rightarrow> Inr None
      | Some s \<Rightarrow> map_sum id Some (page_range_loop [] (split_sep CHR '','' s)))"

text \<open>
  The use of the result in \<open>Context._process\<close>: \<open>None\<close> selects every page of the
  document, a list selects \<open>document.pages[i - 1]\<close> for each \<open>i\<close>. A page is
  represented by its zero-based number \<open>page.n\<close>; the document by its page count.
  The decoding library's page sequence raises \<open>IndexError\<close> for an index below
  zero or beyond the last page.
\<close>

definition document_page :: "nat \<Rightarrow> int \<Rightarrow> error + nat" where
  "document_page count k = (if 0 \<le> k \<and> k < int count then Inr (nat k) else Inl IndexError)"

fun select_listed :: "nat \<Rightarrow> int list \<Rightarrow> error + nat list" where
  "select_listed count [] = Inr []"
| "select_listed count (i # is) =
     (case document_page count (i - 1) of
        Inl e \<Rightarrow> Inl e
      | Inr p \<Rightarrow> map_sum id (\<lambda>ps. p # ps) (select_listed count is))"

definition select_pages :: "nat \<Rightarrow> int list option \<Rightarrow> error + nat list" where
  "select_pages count pages =
     (case pages of
        None \<Rightarrow> Inr [0..<count]
      | Some is \<Rightarrow> select_listed count is)"

subsection \<open>The claim's reading of the result\<close>

text \<open>
  What one comma-separated item stands for: a single number for itself, \<open>a-b\<close> for
  the pages from \<open>a\<close> to \<open>b\<close>.
\<close>

definition expand_item :: "string \<Rightarrow> error + int list" where
  "expand_item item =
     (if CHR ''-'' \<in> set item then
        (case py_int (fst (split_first CHR ''-'' item)) of
           Inl e \<Rightarrow> Inl e
         | Inr x \<Rightarrow>
             (case py_int (snd (split_first CHR ''-'' item)) of
                Inl e \<Rightarrow> Inl e
              | Inr y \<Rightarrow> xrange x (y + 1)))
      else map_sum id (\<lambda>v. [v]) (py_int item))"

text \<open>The expansions of all items, in input order; the first failure wins.\<close>

fun expansions :: "string list \<Rightarrow> error + int list list" where
  "expansions [] = Inr []"
| "expansions (item # items) =
     (case expand_item item of
        Inl e \<Rightarrow> Inl e
      | Inr r \<Rightarrow> map_sum id (\<lambda>rs. r # rs) (expansions items))"

text \<open>
  Segments are ascending and disjoint when each one is strictly ascending and every
  number of an earlier segment is below every number of a later one.
\<close>

definition segment_before :: "int list \<Rightarrow> int list \<Rightarrow> bool" where
  "segment_before a b = list_all (\<lambda>x. list_all (\<lambda>y. x < y) b) a"

definition ascending_disjoint :: "int list list \<Rightarrow> bool" where
  "ascending_disjoint segs = (list_all (sorted_wrt (<)) segs \<and> sorted_wrt segment_before segs)"

section \<open>lib/_ocrodjvu.py: the select directive of the djvused script\<close>

text \<open>
  \<open>s.replace(old, new)\<close> for a one-character \<open>old\<close>: every occurrence, left to
  right.
\<close>

definition replace_char :: "char \<Rightarrow> string \<Rightarrow> string \<Rightarrow> string" where
  "replace_char old new s = concat (map (\<lambda>x. if x = old then new else [x]) s)"

text \<open>
  The expression \<open>file_id.replace('\\', '\\\\').replace("'", "\\'")\<close> of
  \<open>Context._process\<close>, on the encoded file identifier.
\<close>

definition escape_file_id :: "string \<Rightarrow> string" where
  "escape_file_id file_id =
     replace_char quote [backslash, quote] (replace_char backslash [backslash, backslash] file_id)"

text \<open>The line \<open>sed_file.write('select \'%s\'\n' % ...)\<close>.\<close>

definition select_directive :: "string \<Rightarrow> string" where
  "select_directive file_id = ''select '' @ [quote] @ escape_file_id file_id @ [quote, newline]"

text \<open>
  The claim's reading of the escaping, character by character: a backslash becomes
  two, a quote becomes backslash and quote, any other character stays.
\<close>

definition escape_char :: "char \<Rightarrow> string" where
  "escape_char c =
     (if c = backslash then [backslash, backslash]
      else if c = quote then [backslash, quote]
      else [c])"

text \<open>
  Modelled from the spec: the parser of the script's grammar is the external editing
  tool and is not part of the repository; the spec has it as a test double that
  recovers the identifier. Inside the quotes a backslash makes the next character
  literal.
\<close>

fun unescape :: "string \<Rightarrow> string" where
  "unescape [] = []"
| "unescape [c] = [c]"
| "unescape (c # d # r) = (if c = backslash then d # unescape r else c # unescape (d # r))"

section \<open>lib/image_io.py and Context.get_output_image: the BMP encoder\<close>

subsection \<open>struct.pack\<close>

type_synonym byte = "8 word"

datatype pack_arg = PChar char | PInt int

text \<open>The \<open>k\<close> low bytes of a number, least significant first.\<close>

fun le_bytes :: "nat \<Rightarrow> nat \<Rightarrow> byte list" where
  "le_bytes 0 n = []"
| "le_bytes (Suc k) n = of_nat (n mod 256) # le_bytes k (n div 256)"

text \<open>An unsigned field of \<open>k\<close> bytes: a value out of range raises \<open>struct.error\<close>.\<close>

definition pack_uint :: "nat \<Rightarrow> int \<Rightarrow> error + byte list" where
  "pack_uint k v = (if 0 \<le> v \<and> v < 2 ^ (8 * k) then Inr (le_bytes k (nat v)) else Inl StructError)"

text \<open>
  One format code with its argument, for the codes the program uses: \<open>c\<close> (a
  character), \<open>B\<close>, \<open>H\<close> and \<open>I\<close> (unsigned, 1, 2 and 4 bytes).
\<close>

fun pack_item :: "char \<Rightarrow> pack_arg \<Rightarrow> error + byte list" where
  "pack_item code (PChar ch) = (if code = CHR ''c'' then Inr [of_char ch] else Inl StructError)"
| "pack_item code (PInt v) =
     (if code = CHR ''B'' then pack_uint 1 v
      else if code = CHR ''H'' then pack_uint 2 v
      else if code = CHR ''I'' then pack_uint 4 v
      else Inl StructError)"

fun pack_items :: "string \<Rightarrow> pack_arg list \<Rightarrow> error + byte list" where
  "pack_items [] [] = Inr []"
| "pack_items (code # codes) (a # args) =
     (case pack_item code a of
        Inl e \<Rightarrow> Inl e
      | Inr bs \<Rightarrow> map_sum id (\<lambda>rest. bs @ rest) (pack_items codes args))"
| "pack_items [] (a # args) = Inl StructError"
| "pack_items (code # codes) [] = Inl StructError"

text \<open>\<open>struct.pack(fmt, ...)\<close> for a little-endian format (\<open><\<close>: no padding).\<close>

definition struct_pack :: "string \<Rightarrow> pack_arg list \<Rightarrow> error + byte list" where
  "struct_pack fmt args =
     (case fmt of
        [] \<Rightarrow> Inl StructError
      | order # codes \<Rightarrow> if order = CHR ''<'' then pack_items codes args else Inl StructError)"

subsection \<open>Double-precision arithmetic of the resolution\<close>

text \<open>
  \<open>int(page_job.dpi * 39.37 + 0.5)\<close> is computed on IEEE 754 doubles: the
  literal, the product and the sum are each rounded to the nearest double, ties to
  the even significand. Doubles are modelled as the rationals they denote (below
  the overflow threshold), \<open>fl\<close> being the rounding.
\<close>

fun bit_length :: "nat \<Rightarrow> nat" where
  "bit_length n = (if n = 0 then 0 else Suc (bit_length (n div 2)))"

declare bit_length.simps [simp del]

definition pow2 :: "int \<Rightarrow> rat" where
  "pow2 k = (if 0 \<le> k then 2 ^ nat k else 1 / 2 ^ nat (- k))"

text \<open>The exponent \<open>e\<close> with \<open>2 ^ e \<le> x < 2 ^ (e + 1)\<close>, for \<open>x > 0\<close>.\<close>

definition binade :: "rat \<Rightarrow> int" where
  "binade x =
     (if 1 \<le> x then int (bit_length (nat \<lfloor>x\<rfloor>)) - 1
      else - int (bit_length (nat (\<lceil>1 / x\<rceil> - 1))))"

definition round_half_even :: "rat \<Rightarrow> int" where
  "round_half_even x =
     (let n = \<lfloor>x\<rfloor>; r = x - of_int n
      in if r < 1 / 2 then n else if 1 / 2 < r then n + 1 else if even n then n else n + 1)"

definition fl :: "rat \<Rightarrow> rat" where
  "fl x =
     (if x = 0 then 0
      else let u = pow2 (max (binade \<bar>x\<bar>) (- 1022) - 52)
           in sgn x * of_int (round_half_even (\<bar>x\<bar> / u)) * u)"

text \<open>\<open>int(x)\<close> on a float truncates towards zero.\<close>

definition py_int_of_float :: "rat \<Rightarrow> int" where
  "py_int_of_float x = (if 0 \<le> x then \<lfloor>x\<rfloor> else \<lceil>x\<rceil>)"

definition dpm_of_dpi :: "nat \<Rightarrow> int" where
  "dpm_of_dpi d = py_int_of_float (fl (fl (of_nat d * fl (3937 / 100)) + 1 / 2))"

text \<open>
  The claim's \<open>round\<close>: the function \<open>round\<close> of the language on a non-negative
  double, the nearest integer with a half rounded up.
\<close>

definition py_round :: "rat \<Rightarrow> int" where
  "py_round x = \<lfloor>x + 1 / 2\<rfloor>"

subsection \<open>Pixel formats and the renderer\<close>

datatype pixel_kind = PackedBits | Rgb

record pixel_format =
  kind :: pixel_kind
  rows_top_to_bottom :: bool
  y_top_to_bottom :: bool

definition bpp :: "pixel_format \<Rightarrow> nat" where
  "bpp fmt = (case kind fmt of PackedBits \<Rightarrow> 1 | Rgb \<Rightarrow> 24)"

text \<open>\<open>ImageFormat.__init__\<close> and \<open>BMP.__init__\<close>.\<close>

definition ImageFormat_init :: "nat \<Rightarrow> error + pixel_format" where
  "ImageFormat_init b =
     (if b = 1 then Inr \<lparr>kind = PackedBits, rows_top_to_bottom = True, y_top_to_bottom = True\<rparr>
      else if b = 24 then Inr \<lparr>kind = Rgb, rows_top_to_bottom = True, y_top_to_bottom = True\<rparr>
      else Inl NotImplementedError)"

definition BMP_init :: "nat \<Rightarrow> error + pixel_format" where
  "BMP_init b = map_sum id (\<lambda>fmt. fmt\<lparr>rows_top_to_bottom := False\<rparr>) (ImageFormat_init b)"

text \<open>
  A decoded page: its size \<open>(width, height)\<close>, its resolution, and what the
  decoder shows at each position, in colour and as the bitonal mask.
\<close>

record page_job =
  size :: "nat \<times> nat"
  dpi :: nat
  colour :: "nat \<Rightarrow> nat \<Rightarrow> byte \<times> byte \<times> byte"
  mask :: "nat \<Rightarrow> nat \<Rightarrow> bool"

text \<open>
  Modelled from the spec: \<open>job.render(layerSelector, sourceRect, destRect,
  pixelFormat[, rowAlignment]) -> bytes\<close> belongs to the decoding library, which is
  not part of the repository. The whole page is rendered row by row, three bytes a
  pixel for RGB and eight pixels a byte (first pixel in the high bit) for packed
  bits, each row filled with zero bytes up to a multiple of the row alignment.
\<close>

definition round_up :: "nat \<Rightarrow> nat \<Rightarrow> nat" where
  "round_up a n = ((n + a - 1) div a) * a"

definition pad_row :: "nat \<Rightarrow> byte list \<Rightarrow> byte list" where
  "pad_row a row = row @ replicate (round_up a (length row) - length row) 0"

definition rgb_row :: "page_job \<Rightarrow> nat \<Rightarrow> byte list" where
  "rgb_row job y =
     concat (map (\<lambda>x. case colour job x y of (r, g, b) \<Rightarrow> [r, g, b]) [0..<fst (size job)])"

definition packed_byte :: "page_job \<Rightarrow> nat \<Rightarrow> nat \<Rightarrow> byte" where
  "packed_byte job y k =
     of_nat (sum_list (map (\<lambda>j. if 8 * k + j < fst (size job) \<and> mask job (8 * k + j) y
                                  then 2 ^ (7 - j) else 0) [0..<8]))"

definition packed_row :: "page_job \<Rightarrow> nat \<Rightarrow> byte list" where
  "packed_row job y = map (packed_byte job y) [0..<(fst (size job) + 7) div 8]"

definition render :: "page_job \<Rightarrow> pixel_format \<Rightarrow> nat \<Rightarrow> byte list" where
  "render job fmt row_alignment =
     concat (map (\<lambda>y. pad_row row_alignment
                          (case kind fmt of PackedBits \<Rightarrow> packed_row job y | Rgb \<Rightarrow> rgb_row job y))
                 (if rows_top_to_bottom fmt then [0..<snd (size job)]
                  else rev [0..<snd (size job)]))"

subsection \<open>BMP.write_image\<close>

text \<open>
  The file is the list of the bytes written to it so far; the function returns the
  file after its last write, or the exception of the first \<open>struct.pack\<close> that
  fails.
\<close>

definition BMP_write_image :: "pixel_format \<Rightarrow> page_job \<Rightarrow> byte list \<Rightarrow> error + byte list" where
  "BMP_write_image fmt page_job file =
     (let dpm = dpm_of_dpi (dpi page_job);
          data = render page_job fmt 4;
          n_palette_colors = 2 * (if bpp fmt = 1 then 1 else 0);
          headers_size = 54 + 4 * n_palette_colors
      in case struct_pack ''<ccIHHI''
                [PChar CHR ''B'', PChar CHR ''M'',
                 PInt (int (length data) + headers_size),
                 PInt 0, PInt 0,
                 PInt headers_size] of
           Inl e \<Rightarrow> Inl e
         | Inr file_header \<Rightarrow>
             (case struct_pack ''<IIIHHIIIIII''
                     [PInt 40,
                      PInt (int (fst (size page_job))), PInt (int (snd (size page_job))),
                      PInt 1,
                      PInt (int (bpp fmt)),
                      PInt 0,
                      PInt (int (length data)),
                      PInt dpm, PInt dpm,
                      PInt n_palette_colors,
                      PInt n_palette_colors] of
                Inl e \<Rightarrow> Inl e
              | Inr info_header \<Rightarrow>
                  (if bpp fmt = 1 then
                     (case struct_pack ''<BBBB'' [PInt 0xff, PInt 0xff, PInt 0xff, PInt 0] of
                        Inl e \<Rightarrow> Inl e
                      | Inr white \<Rightarrow>
                          (case struct_pack ''<BBBB'' [PInt 0, PInt 0, PInt 0, PInt 0] of
                             Inl e \<Rightarrow> Inl e
                           | Inr black \<Rightarrow>
                               Inr (file @ file_header @ info_header @ white @ black @ data)))
                   else Inr (file @ file_header @ info_header @ data))))"

subsection \<open>Context.get_output_image\<close>

function decimal :: "nat \<Rightarrow> string" where
  "decimal n =
     (if n < 10 then [char_of (of_char CHR ''0'' + n)]
      else decimal (n div 10) @ [char_of (of_char CHR ''0'' + n mod 10)])"
  by pat_completeness auto
termination
  by (relation "measure id") auto

declare decimal.simps [simp del]

definition bytes_of :: "string \<Rightarrow> byte list" where
  "bytes_of s = map of_char s"

text \<open>
  The bytes of the temporary image file when the \<open>with\<close> body receives it. The
  engine's image format selects the branch; the BMP branch repeats the encoder
  of \<open>lib/image_io.py\<close>.
\<close>

definition get_output_image :: "string \<Rightarrow> pixel_format \<Rightarrow> page_job \<Rightarrow> error + byte list" where
  "get_output_image output_format fmt page_job =
     (if output_format = ''ppm'' then
        Inr ((if bpp fmt = 1
              then bytes_of (''P4 '' @ decimal (fst (size page_job)) @ '' ''
                             @ decimal (snd (size page_job)) @ [newline])
              else bytes_of (''P6 '' @ decimal (fst (size page_job)) @ '' ''
                             @ decimal (snd (size page_job)) @ '' 255'' @ [newline]))
             @ render page_job fmt 1)
      else if output_format = ''bmp'' then
        (let dpm = dpm_of_dpi (dpi page_job);
             data = render page_job fmt 4;
             n_palette_colors = 2 * (if bpp fmt = 1 then 1 else 0);
             headers_size = 54 + 4 * n_palette_colors
         in case struct_pack ''<ccIHHI''
                   [PChar CHR ''B'', PChar CHR ''M'',
                    PInt (int (length data) + headers_size),
                    PInt 0, PInt 0,
                    PInt headers_size] of
              Inl e \<Rightarrow> Inl e
            | Inr file_header \<Rightarrow>
                (case struct_pack ''<IIIHHIIIIII''
                        [PInt 40,
                         PInt (int (fst (size page_job))), PInt (int (snd (size page_job))),
                         PInt 1,
                         PInt (int (bpp fmt)),
                         PInt 0,
                         PInt (int (length data)),
                         PInt dpm, PInt dpm,
                         PInt n_palette_colors,
                         PInt n_palette_colors] of
                   Inl e \<Rightarrow> Inl e
                 | Inr info_header \<Rightarrow>
                     (if bpp fmt = 1 then
                        (case struct_pack ''<BBBB'' [PInt 0xff, PInt 0xff, PInt 0xff, PInt 0] of
                           Inl e \<Rightarrow> Inl e
                         | Inr white \<Rightarrow>
                             (case struct_pack ''<BBBB'' [PInt 0, PInt 0, PInt 0, PInt 0] of
                                Inl e \<Rightarrow> Inl e
                              | Inr black \<Rightarrow>
                                  Inr (file_header @ info_header @ white @ black @ data)))
                      else Inr (file_header @ info_header @ data))))
      else Inl NotImplementedError)"

subsection \<open>Reading a BMP header back\<close>

text \<open>The number a little-endian field holds, and the field of \<open>k\<close> bytes at an offset.\<close>

fun le_value :: "byte list \<Rightarrow> nat" where
  "le_value [] = 0"
| "le_value (b # bs) = unat b + 256 * le_value bs"

definition field :: "nat \<Rightarrow> nat \<Rightarrow> byte list \<Rightarrow> nat" where
  "field off k bs = le_value (take k (drop off bs))"

text \<open>The number of palette entries the encoder writes for a pixel format.\<close>

definition palette_entries :: "pixel_format \<Rightarrow> nat" where
  "palette_entries fmt = (if bpp fmt = 1 then 2 else 0)"

text \<open>The values an unsigned field of \<open>k\<close> bytes can hold.\<close>

definition in_range :: "nat \<Rightarrow> int \<Rightarrow> bool" where
  "in_range k v = (0 \<le> v \<and> v < 2 ^ (8 * k))"

text \<open>
  The closed form of the encoder used in the proofs: the condition under which no
  \<open>struct.pack\<close> fails, and the bytes written then.
\<close>

definition bmp_ok :: "pixel_format \<Rightarrow> page_job \<Rightarrow> bool" where
  "bmp_ok fmt job =
     (length (render job fmt 4) + (54 + 4 * palette_entries fmt) < 2 ^ 32 \<and>
      fst (size job) < 2 ^ 32 \<and> snd (size job) < 2 ^ 32 \<and>
      0 \<le> dpm_of_dpi (dpi job) \<and> dpm_of_dpi (dpi job) < 2 ^ 32)"

definition bmp_bytes :: "pixel_format \<Rightarrow> page_job \<Rightarrow> byte list" where
  "bmp_bytes fmt job =
     of_char CHR ''B'' # of_char CHR ''M''
     # le_bytes 4 (length (render job fmt 4) + (54 + 4 * palette_entries fmt))
     @ le_bytes 2 0 @ le_bytes 2 0
     @ le_bytes 4 (54 + 4 * palette_entries fmt)
     @ le_bytes 4 40
     @ le_bytes 4 (fst (size job)) @ le_bytes 4 (snd (size job))
     @ le_bytes 2 1 @ le_bytes 2 (bpp fmt)
     @ le_bytes 4 0
     @ le_bytes 4 (length (render job fmt 4))
     @ le_bytes 4 (nat (dpm_of_dpi (dpi job))) @ le_bytes 4 (nat (dpm_of_dpi (dpi job)))
     @ le_bytes 4 (palette_entries fmt) @ le_bytes 4 (palette_entries fmt)
     @ (if bpp fmt = 1 then [0xff, 0xff, 0xff, 0, 0, 0, 0, 0] else [])
     @ render job fmt 4"

subsection \<open>A reference image\<close>

text \<open>
  A page of one black pixel at 300 dpi, the pixel format of \<open>BMP(1)\<close>, and the 66
  bytes of its BMP file.
\<close>

definition job1 :: page_job where
  "job1 = \<lparr>size = (1, 1), dpi = 300, colour = (\<lambda>x y. (0, 0, 0)), mask = (\<lambda>x y. True)\<rparr>"

definition fmt1 :: pixel_format where
  "fmt1 = \<lparr>kind = PackedBits, rows_top_to_bottom = False, y_top_to_bottom = True\<rparr>"

definition ref1 :: "byte list" where
  "ref1 = [0x42, 0x4D, 0x42, 0, 0, 0, 0, 0, 0, 0, 0x3E, 0, 0, 0,
           0x28, 0, 0, 0, 1, 0, 0, 0, 1, 0, 0, 0, 1, 0, 1, 0, 0, 0, 0, 0, 4, 0, 0, 0,
           0x23, 0x2E, 0, 0, 0x23, 0x2E, 0, 0, 2, 0, 0, 0, 2, 0, 0, 0,
           0xFF, 0xFF, 0xFF, 0, 0, 0, 0, 0,
           0x80, 0, 0, 0]"

section \<open>lib/_ocrodjvu.py: the worker threads and the main thread\<close>

subsection \<open>Values and configuration\<close>

text \<open>
  What \<open>process_page\<close> does for a page: it returns the recognised text, or raises
  \<open>djvu.decode.NotAvailable\<close>, or raises another exception. The decoder and the
  OCR engine are external; the text is represented by what \<open>print_into\<close> writes
  for it, an exception by its message.
\<close>

datatype outcome = Text string | NotAvailable | Raises string

text \<open>
  The values of the \<open>results\<close> dictionary: \<open>None\<close> (nobody has taken the page),
  \<open>True\<close> (taken), \<open>False\<close> (no image suitable for OCR), a text, or an exception.
\<close>

datatype entry = PyNone | PyTrue | PyFalse | PyText string | PyException string

datatype thread = Main | Worker nat

text \<open>
  The arguments of a run: the pages (each page by its number \<open>page.n\<close>, in the
  order of the \<open>pages\<close> list), the options \<open>n_jobs\<close>, \<open>clear_text\<close> and
  \<open>debug\<close>, the file identifier of each page, what \<open>process_page\<close> does for each
  page, and the exception \<open>saver.save\<close> raises, if any.
\<close>

record config =
  pages :: "nat list"
  n_jobs :: nat
  clear_text :: bool
  option_debug :: bool
  file_id :: "nat \<Rightarrow> string"
  process_page :: "nat \<Rightarrow> outcome"
  save_raises :: "string option"

subsection \<open>Program points\<close>

text \<open>
  Where a worker is in \<open>page_thread\<close>. The list is the rest of the \<open>for\<close> loop.
  \<open>W_next\<close>: at the head of the loop (line 385), about to enter \<open>with condition\<close>;
  \<open>W_claim\<close>: inside it (lines 388 to 393);
  \<open>W_process\<close>: calling \<open>process_page\<close> (line 395);
  \<open>W_except\<close>: in the handler of any other exception, before line 400;
  \<open>W_except_enter\<close>: before \<open>with condition\<close> of line 401;
  \<open>W_except_notify\<close>: inside it (line 402);
  \<open>W_enter\<close>: before \<open>with condition\<close> of line 404, holding the value to store;
  \<open>W_store\<close>: inside it (lines 405 to 407);
  \<open>W_finished\<close>: the loop is over; \<open>W_raised\<close>: the thread died of an exception.
\<close>

datatype wpc =
    W_next "nat list"
  | W_claim nat "nat list"
  | W_process nat "nat list"
  | W_except nat string
  | W_except_enter string
  | W_except_notify string
  | W_enter nat entry "nat list"
  | W_store nat entry "nat list"
  | W_finished
  | W_raised string

text \<open>
  Where the main thread is in \<open>_process\<close>, once the threads are started.
  \<open>M_open\<close>: before the script is opened (line 430);
  \<open>M_next\<close>: at the head of the \<open>for\<close> loop (line 434);
  \<open>M_enter\<close>: before \<open>with condition\<close> (line 438);
  \<open>M_check\<close>: inside it, at the head of the \<open>while\<close> loop (line 440);
  \<open>M_wait\<close>: inside \<open>condition.wait()\<close> (line 443);
  \<open>M_join\<close>: joining the threads of the list (lines 445 and 446);
  \<open>M_print\<close>: after the \<open>with\<close> block, holding the result (line 451);
  \<open>M_save\<close>: after the loop (line 457);
  \<open>M_exited\<close>: \<open>main\<close> is over.
\<close>

datatype mpc =
    M_open
  | M_next "nat list"
  | M_enter nat "nat list"
  | M_check nat "nat list"
  | M_wait nat "nat list"
  | M_join "nat list"
  | M_print nat entry "nat list"
  | M_save
  | M_exited

subsection \<open>State\<close>

text \<open>
  The dictionary \<open>results\<close>; the owner of the lock of \<open>condition\<close>; the threads
  blocked in \<open>condition.wait()\<close> that no \<open>notify\<close> has released yet, oldest first;
  the program point of each worker and of the main thread; what has been written
  to the djvused script; \<open>self._debug\<close>; whether the temporary directory exists;
  and the exit status once the main thread is over.
\<close>

record state =
  results :: "nat \<Rightarrow> entry option"
  lock :: "thread option"
  waiters :: "thread list"
  wpcs :: "nat \<Rightarrow> wpc"
  mpc :: mpc
  sed_file :: string
  debug :: bool
  temp_dir :: bool
  exit_status :: "nat option"

definition init :: "config \<Rightarrow> state" where
  "init cfg =
     \<lparr>results = map_of (map (\<lambda>n. (n, PyNone)) (pages cfg)),
      lock = None,
      waiters = [],
      wpcs = (\<lambda>i. W_next (pages cfg)),
      mpc = M_open,
      sed_file = [],
      debug = option_debug cfg,
      temp_dir = True,
      exit_status = None\<rparr>"

subsection \<open>The condition variable\<close>

text \<open>
  \<open>with condition\<close> takes the lock when it is free and blocks otherwise; leaving
  the block releases it. \<open>notify()\<close> releases the oldest waiter. \<open>wait()\<close> adds
  the caller to the waiters and releases the lock; the caller goes on, taking the
  lock again, once a \<open>notify\<close> has released it.
\<close>

definition release :: "state \<Rightarrow> state" where
  "release s = s\<lparr>lock := None\<rparr>"

definition notify :: "state \<Rightarrow> state" where
  "notify s = s\<lparr>waiters := drop 1 (waiters s)\<rparr>"

subsection \<open>page_thread\<close>

definition set_wpc :: "nat \<Rightarrow> wpc \<Rightarrow> state \<Rightarrow> state" where
  "set_wpc i pc s = s\<lparr>wpcs := (wpcs s)(i := pc)\<rparr>"

definition set_result :: "nat \<Rightarrow> entry \<Rightarrow> state \<Rightarrow> state" where
  "set_result n v s = s\<lparr>results := (results s)(n \<mapsto> v)\<rparr>"

text \<open>
  One step of worker \<open>i\<close>, or \<open>None\<close> when it cannot move: it waits for the lock, or
  its thread is over. Reading a key that is not in the dictionary raises
  \<open>KeyError\<close>; a failed \<open>assert\<close> raises \<open>AssertionError\<close>.
\<close>

definition worker_step :: "config \<Rightarrow> nat \<Rightarrow> state \<Rightarrow> state option" where
  "worker_step cfg i s =
     (case wpcs s i of
        W_next [] \<Rightarrow> Some (set_wpc i W_finished s)
      | W_next (n # rest) \<Rightarrow>
          if lock s = None then Some (set_wpc i (W_claim n rest) (s\<lparr>lock := Some (Worker i)\<rparr>))
          else None
      | W_claim n rest \<Rightarrow>
          (case results s n of
             None \<Rightarrow> Some (set_wpc i (W_raised ''KeyError'') (release s))
           | Some result \<Rightarrow>
               if result \<noteq> PyNone then Some (set_wpc i (W_next rest) (release s))
               else Some (set_wpc i (W_process n rest) (release (set_result n PyTrue s))))
      | W_process n rest \<Rightarrow>
          (case process_page cfg n of
             Text t \<Rightarrow> Some (set_wpc i (W_enter n (PyText t) rest) s)
           | NotAvailable \<Rightarrow> Some (set_wpc i (W_enter n PyFalse rest) s)
           | Raises ex \<Rightarrow> Some (set_wpc i (W_except n ex) s))
      | W_except n ex \<Rightarrow> Some (set_wpc i (W_except_enter ex) (set_result n (PyException ex) s))
      | W_except_enter ex \<Rightarrow>
          if lock s = None then Some (set_wpc i (W_except_notify ex) (s\<lparr>lock := Some (Worker i)\<rparr>))
          else None
      | W_except_notify ex \<Rightarrow> Some (set_wpc i (W_raised ex) (release (notify s)))
      | W_enter n result rest \<Rightarrow>
          if lock s = None then Some (set_wpc i (W_store n result rest) (s\<lparr>lock := Some (Worker i)\<rparr>))
          else None
      | W_store n result rest \<Rightarrow>
          (case results s n of
             None \<Rightarrow> Some (set_wpc i (W_raised ''KeyError'') (release s))
           | Some r \<Rightarrow>
               if r = PyTrue
               then Some (set_wpc i (W_next rest) (release (notify (set_result n result s))))
               else Some (set_wpc i (W_raised ''AssertionError'') (release s)))
      | W_finished \<Rightarrow> None
      | W_raised ex \<Rightarrow> None)"

subsection \<open>_process, process, close and main\<close>

definition finished :: "wpc \<Rightarrow> bool" where
  "finished pc = (case pc of W_finished \<Rightarrow> True | W_raised ex \<Rightarrow> True | _ \<Rightarrow> False)"

text \<open>
  \<open>close\<close>: with \<open>_debug\<close> set it returns the temporary directory, otherwise it
  removes the directory and returns \<open>None\<close>. The first component tells whether the
  directory was returned.
\<close>

definition close :: "state \<Rightarrow> bool \<times> state" where
  "close s = (if debug s then (True, s) else (False, s\<lparr>temp_dir := False\<rparr>))"

text \<open>
  An exception, \<open>SystemExit\<close> included, that leaves \<open>_process\<close>: the \<open>with\<close>
  block, if the main thread is inside one, releases the lock; \<open>process\<close> sets
  \<open>_debug\<close> and raises the exception again; \<open>main\<close> calls \<open>close\<close> and the
  interpreter ends the main thread with status 1.
\<close>

definition leave_by_exception :: "state \<Rightarrow> state" where
  "leave_by_exception s =
     (snd (close (s\<lparr>lock := (if lock s = Some Main then None else lock s), debug := True\<rparr>)))
       \<lparr>exit_status := Some 1, mpc := M_exited\<rparr>"

text \<open>\<open>_process\<close> returns: \<open>main\<close> calls \<open>close\<close> and ends with status 0.\<close>

definition leave_by_return :: "state \<Rightarrow> state" where
  "leave_by_return s = (snd (close s))\<lparr>exit_status := Some 0, mpc := M_exited\<rparr>"

text \<open>
  What \<open>print_into\<close> writes for a result; \<open>False\<close> is skipped. The other values
  have no \<open>print_into\<close>.
\<close>

definition printed :: "entry \<Rightarrow> string option" where
  "printed result =
     (case result of PyFalse \<Rightarrow> Some [] | PyText t \<Rightarrow> Some t | _ \<Rightarrow> None)"

text \<open>One step of the main thread, or \<open>None\<close> when it cannot move.\<close>

definition main_step :: "config \<Rightarrow> state \<Rightarrow> state option" where
  "main_step cfg s =
     (case mpc s of
        M_open \<Rightarrow>
          Some (s\<lparr>sed_file := (if clear_text cfg then ''remove-txt'' @ [newline] else []),
                  mpc := M_next (pages cfg)\<rparr>)
      | M_next [] \<Rightarrow> Some (s\<lparr>mpc := M_save\<rparr>)
      | M_next (n # rest) \<Rightarrow>
          Some (s\<lparr>sed_file := sed_file s @ select_directive (file_id cfg n) @ ''set-txt'' @ [newline],
                  mpc := M_enter n rest\<rparr>)
      | M_enter n rest \<Rightarrow>
          if lock s = None then Some (s\<lparr>lock := Some Main, mpc := M_check n rest\<rparr>) else None
      | M_check n rest \<Rightarrow>
          (case results s n of
             None \<Rightarrow> Some (leave_by_exception s)
           | Some result \<Rightarrow>
               (case result of
                  PyNone \<Rightarrow> Some (s\<lparr>waiters := waiters s @ [Main], lock := None, mpc := M_wait n rest\<rparr>)
                | PyTrue \<Rightarrow> Some (s\<lparr>waiters := waiters s @ [Main], lock := None, mpc := M_wait n rest\<rparr>)
                | PyException ex \<Rightarrow> Some (s\<lparr>mpc := M_join [0..<n_jobs cfg]\<rparr>)
                | _ \<Rightarrow> Some ((release s)\<lparr>mpc := M_print n result rest\<rparr>)))
      | M_wait n rest \<Rightarrow>
          if Main \<notin> set (waiters s) \<and> lock s = None
          then Some (s\<lparr>lock := Some Main, mpc := M_check n rest\<rparr>) else None
      | M_join [] \<Rightarrow> Some (leave_by_exception (s\<lparr>debug := True\<rparr>))
      | M_join (i # threads) \<Rightarrow>
          if finished (wpcs s i) then Some (s\<lparr>mpc := M_join threads\<rparr>) else None
      | M_print n result rest \<Rightarrow>
          (case printed result of
             None \<Rightarrow> Some (leave_by_exception s)
           | Some text \<Rightarrow>
               Some (s\<lparr>sed_file := sed_file s @ text @ [newline] @ ''.'' @ [newline, newline],
                       mpc := M_next rest\<rparr>))
      | M_save \<Rightarrow>
          (case save_raises cfg of
             None \<Rightarrow> Some (leave_by_return s)
           | Some ex \<Rightarrow> Some (leave_by_exception s))
      | M_exited \<Rightarrow> None)"

subsection \<open>Runs\<close>

definition step :: "config \<Rightarrow> thread \<Rightarrow> state \<Rightarrow> state option" where
  "step cfg t s =
     (case t of
        Main \<Rightarrow> main_step cfg s
      | Worker i \<Rightarrow> if i < n_jobs cfg then worker_step cfg i s else None)"

text \<open>
  A schedule names the thread that moves next; a thread that cannot move is passed
  over. Every interleaving of the threads is the run of some schedule.
\<close>

fun run :: "config \<Rightarrow> thread list \<Rightarrow> state \<Rightarrow> state" where
  "run cfg [] s = s"
| "run cfg (t # sched) s =
     (case step cfg t s of None \<Rightarrow> run cfg sched s | Some s' \<Rightarrow> run cfg sched s')"

text \<open>
  The pages a run takes, in the order of the steps: a page is taken by the step
  that turns its entry from \<open>None\<close> into \<open>True\<close>. With each page, the thread of the
  step and the owner of the lock before the step.
\<close>

definition taken_by_step :: "config \<Rightarrow> state \<Rightarrow> state \<Rightarrow> nat list" where
  "taken_by_step cfg s s' =
     filter (\<lambda>n. results s n = Some PyNone \<and> results s' n = Some PyTrue) (remdups (pages cfg))"

fun taken :: "config \<Rightarrow> thread list \<Rightarrow> state \<Rightarrow> (nat \<times> thread \<times> thread option) list" where
  "taken cfg [] s = []"
| "taken cfg (t # sched) s =
     (case step cfg t s of
        None \<Rightarrow> taken cfg sched s
      | Some s' \<Rightarrow> map (\<lambda>n. (n, t, lock s)) (taken_by_step cfg s s') @ taken cfg sched s')"

subsection \<open>The claims' vocabulary\<close>

text \<open>A terminal entry: a text, \<open>False\<close> or an exception.\<close>

definition terminal :: "entry \<Rightarrow> bool" where
  "terminal r = (case r of PyNone \<Rightarrow> False | PyTrue \<Rightarrow> False | _ \<Rightarrow> True)"

text \<open>The run is complete: the main thread has left the loop over the pages normally.\<close>

definition completed :: "state \<Rightarrow> bool" where
  "completed s = (mpc s = M_save \<or> exit_status s = Some 0)"

text \<open>The main thread has seen an exception in the dictionary.\<close>

definition failure_observed :: "state \<Rightarrow> bool" where
  "failure_observed s = (case mpc s of M_join threads \<Rightarrow> True | _ \<Rightarrow> False)"

text \<open>
  The group of records of one page in the script: the select directive, \<open>set-txt\<close>,
  the text (nothing when there is no image), a line with a full stop and an empty
  line. The script of a list of pages has the groups in the order of the list.
\<close>

definition text_body :: "outcome \<Rightarrow> string" where
  "text_body out = (case out of Text t \<Rightarrow> t | _ \<Rightarrow> [])"

definition page_records :: "config \<Rightarrow> nat \<Rightarrow> string" where
  "page_records cfg n =
     select_directive (file_id cfg n) @ ''set-txt'' @ [newline]
     @ text_body (process_page cfg n) @ [newline] @ ''.'' @ [newline, newline]"

definition script :: "config \<Rightarrow> nat list \<Rightarrow> string" where
  "script cfg ps =
     (if clear_text cfg then ''remove-txt'' @ [newline] else []) @ concat (map (page_records cfg) ps)"

section \<open>Properties of parse_page_numbers\<close>

lemma py_int_17: "py_int ''17'' = Inr 17"
  by (simp add: py_int_def strip_def is_space_def py_digits_def is_digit_def digit_value_def)

lemma py_int_37: "py_int ''37'' = Inr 37"
  by (simp add: py_int_def strip_def is_space_def py_digits_def is_digit_def digit_value_def)

lemma py_int_42: "py_int ''42'' = Inr 42"
  by (simp add: py_int_def strip_def is_space_def py_digits_def is_digit_def digit_value_def)

lemma xrange_small:
  "\<bar>lo\<bar> \<le> 1000 \<Longrightarrow> \<bar>hi\<bar> \<le> 1000 \<Longrightarrow> xrange lo hi = Inr [lo..hi - 1]"
  unfolding xrange_def fits_long_def sys_maxint_def by (simp; linarith)

lemmas parse_defs =
  parse_page_numbers_def py_int_def strip_def is_space_def py_digits_def is_digit_def
  digit_value_def split_first_def xrange_def fits_long_def sys_maxint_def

lemma loop_expansions:
  "page_range_loop acc items = map_sum id (\<lambda>xss. acc @ concat xss) (expansions items)"
proof (induction items arbitrary: acc)
  case Nil
  show ?case by simp
next
  case (Cons item items)
  show ?case
  proof (cases "CHR ''-'' \<in> set item")
    case True
    then show ?thesis
      by (cases "expansions items")
         (auto simp: Cons.IH expand_item_def split: prod.splits sum.splits)
  next
    case False
    then show ?thesis
      by (cases "expansions items")
         (auto simp: Cons.IH expand_item_def split: sum.splits)
  qed
qed

lemma sorted_wrt_concat_segments:
  "sorted_wrt (<) (concat segs) = ascending_disjoint (segs :: int list list)"
proof (induction segs)
  case Nil
  show ?case by (simp add: ascending_disjoint_def)
next
  case (Cons a segs)
  have "(\<forall>x\<in>set a. \<forall>y\<in>set (concat segs). x < y) = (\<forall>b\<in>set segs. segment_before a b)"
    by (auto simp: segment_before_def list_all_iff)
  with Cons show ?case
    by (auto simp: ascending_disjoint_def sorted_wrt_append)
qed

text \<open>
  C9: the parser returns \<open>[17]\<close> for \<open>17\<close>, the pages 37 to 42 for \<open>37-42\<close>, page 17
  followed by the pages 37 to 42 for \<open>17,37-42\<close>, the empty list (and no error) for
  the reversed range \<open>42-37\<close>, \<open>[17]\<close> for \<open>17-17\<close>, and \<open>None\<close> for \<open>None\<close>, which
  \<open>_process\<close> reads as every page of the document.
\<close>

theorem parse_page_numbers_examples:
  "parse_page_numbers (Some ''17'') = Inr (Some [17]) \<and>
   parse_page_numbers (Some ''37-42'') = Inr (Some [37, 38, 39, 40, 41, 42]) \<and>
   parse_page_numbers (Some ''17,37-42'') = Inr (Some [17, 37, 38, 39, 40, 41, 42]) \<and>
   parse_page_numbers (Some ''42-37'') = Inr (Some []) \<and>
   parse_page_numbers (Some ''17-17'') = Inr (Some [17]) \<and>
   parse_page_numbers None = Inr None \<and>
   select_pages count None = Inr [0..<count]"
  by (simp add: parse_defs select_pages_def)

text \<open>
  C10: the parser neither sorts nor removes duplicates. For every input string its
  result is the concatenation, in input order, of the expansions of the
  comma-separated items (or the first item's error); \<open>42,17\<close> gives \<open>[42, 17]\<close> and
  \<open>1-3,2-4\<close> gives the pages 2 and 3 twice; and the result is strictly ascending
  (hence free of duplicates) exactly when the segments are ascending and disjoint.
\<close>

theorem parse_page_numbers_concat:
  "parse_page_numbers (Some s) =
     map_sum id (\<lambda>segs. Some (concat segs)) (expansions (split_sep CHR '','' s)) \<and>
   parse_page_numbers (Some ''42,17'') = Inr (Some [42, 17]) \<and>
   parse_page_numbers (Some ''1-3,2-4'') = Inr (Some [1, 2, 3, 2, 3, 4]) \<and>
   (\<forall>segs. expansions (split_sep CHR '','' s) = Inr segs \<longrightarrow>
      parse_page_numbers (Some s) = Inr (Some (concat segs)) \<and>
      (sorted_wrt (<) (concat segs) \<longleftrightarrow> ascending_disjoint segs))"
proof -
  have general: "parse_page_numbers (Some s) =
      map_sum id (\<lambda>segs. Some (concat segs)) (expansions (split_sep CHR '','' s))"
    by (cases "expansions (split_sep CHR '','' s)")
       (simp_all add: parse_page_numbers_def loop_expansions)
  have descending: "parse_page_numbers (Some ''42,17'') = Inr (Some [42, 17])"
    by (simp add: parse_defs)
  have overlapping: "parse_page_numbers (Some ''1-3,2-4'') = Inr (Some [1, 2, 3, 2, 3, 4])"
    by (simp add: parse_defs upto_rec1)
  show ?thesis
    using general descending overlapping by (simp add: sorted_wrt_concat_segments)
qed

theorem parse_page_numbers_concat_witness:
  "expansions (split_sep CHR '','' ''1-3,2-4'') = Inr [[1, 2, 3], [2, 3, 4]] \<and>
   parse_page_numbers (Some ''1-3,2-4'') = Inr (Some (concat [[1, 2, 3], [2, 3, 4]])) \<and>
   \<not> sorted_wrt (<) (concat [[1, 2, 3], [2, 3, 4 :: int]]) \<and>
   \<not> ascending_disjoint [[1, 2, 3], [2, 3, 4]]"
proof -
  have e: "expansions (split_sep CHR '','' ''1-3,2-4'') = Inr [[1, 2, 3], [2, 3, 4]]"
    by (simp add: expand_item_def parse_defs upto_rec1)
  have n: "\<not> sorted_wrt (<) (concat [[1, 2, 3], [2, 3, 4 :: int]])"
    by simp
  from parse_page_numbers_concat [of "''1-3,2-4''"] e n show ?thesis
    by simp
qed

section \<open>Properties of the escaping\<close>

lemma escape_file_id_chars: "escape_file_id s = concat (map escape_char s)"
  by (induction s)
     (simp_all add: escape_file_id_def replace_char_def escape_char_def backslash_def quote_def)

lemma unescape_plain: "c \<noteq> backslash \<Longrightarrow> unescape (c # xs) = c # unescape xs"
  by (cases xs) simp_all

lemma unescape_escape_chars: "unescape (concat (map escape_char s) @ r) = s @ unescape r"
proof (induction s)
  case Nil
  show ?case by simp
next
  case (Cons c s)
  consider "c = backslash" | "c = quote" | "c \<noteq> backslash" "c \<noteq> quote"
    by blast
  then show ?case
  proof cases
    case 1
    then show ?thesis using Cons by (simp add: escape_char_def)
  next
    case 2
    then show ?thesis using Cons by (simp add: escape_char_def)
  next
    case 3
    then show ?thesis using Cons by (simp add: escape_char_def unescape_plain)
  qed
qed

lemma unescape_escape_file_id: "unescape (escape_file_id s) = s"
  using unescape_escape_chars [of s "[]"] by (simp add: escape_file_id_chars)

text \<open>
  C7: in the select directive every backslash of the file identifier is replaced by
  two backslashes and every quote by backslash and quote, the backslashes first;
  unescaping the emitted identifier gives the identifier back, for every string,
  and so the escaping is injective.
\<close>

theorem escape_file_id_roundtrip:
  "select_directive s = ''select '' @ [quote] @ concat (map escape_char s) @ [quote, newline] \<and>
   escape_file_id s =
     replace_char quote [backslash, quote] (replace_char backslash [backslash, backslash] s) \<and>
   unescape (escape_file_id s) = s \<and>
   inj escape_file_id"
proof -
  have "inj escape_file_id"
    by (rule inj_on_inverseI [of _ unescape]) (rule unescape_escape_file_id)
  then show ?thesis
    by (simp add: select_directive_def escape_file_id_chars [symmetric] unescape_escape_file_id)
       (simp add: escape_file_id_def)
qed

section \<open>Properties of the BMP encoder\<close>

subsection \<open>Bytes and fields\<close>

lemma length_le_bytes [simp]: "length (le_bytes k n) = k"
  by (induction k arbitrary: n) simp_all

lemma le_value_le_bytes: "le_value (le_bytes k n) = n mod 256 ^ k"
proof (induction k arbitrary: n)
  case 0
  show ?case by simp
next
  case (Suc k)
  have "n mod 256 + 256 * (n div 256 mod 256 ^ k) = n mod (256 * 256 ^ k)"
    by (simp add: mod_mult2_eq)
  with Suc show ?case by (simp add: unat_of_nat)
qed

lemma le_value_le_bytes_small: "n < 256 ^ k \<Longrightarrow> le_value (le_bytes k n) = n"
  by (simp add: le_value_le_bytes)

lemma pack_uint_Inr: "pack_uint k v = Inr bs \<Longrightarrow> 0 \<le> v \<and> v < 2 ^ (8 * k) \<and> bs = le_bytes k (nat v)"
  by (auto simp: pack_uint_def split: if_splits)

lemma round_up_ge: "0 < a \<Longrightarrow> n \<le> round_up a n"
proof -
  assume a: "0 < a"
  have "(n + a - 1) div a * a + (n + a - 1) mod a = n + a - 1"
    by simp
  moreover have "(n + a - 1) mod a < a"
    using a by simp
  ultimately show ?thesis
    unfolding round_up_def by linarith
qed

lemma length_pad_row: "0 < a \<Longrightarrow> length (pad_row a row) = round_up a (length row)"
  using round_up_ge [of a "length row"] by (simp add: pad_row_def)

lemma length_render_rgb:
  "kind fmt = Rgb \<Longrightarrow> length (render job fmt 4) = snd (size job) * round_up 4 (fst (size job) * 3)"
proof -
  assume k: "kind fmt = Rgb"
  have row: "length (rgb_row job y) = fst (size job) * 3" for y
    by (simp add: rgb_row_def length_concat o_def split_def sum_list_triv)
  have "length (render job fmt 4) =
        sum_list (map (\<lambda>y. round_up 4 (fst (size job) * 3))
                      (if rows_top_to_bottom fmt then [0..<snd (size job)] else rev [0..<snd (size job)]))"
    by (simp add: render_def k length_concat o_def length_pad_row row)
  then show ?thesis
    by (simp add: sum_list_triv)
qed

lemma pack_uint_if: "pack_uint k v = (if in_range k v then Inr (le_bytes k (nat v)) else Inl StructError)"
  by (simp add: pack_uint_def in_range_def)

lemma pack_I: "pack_item CHR ''I'' (PInt v) = pack_uint 4 v"
  by simp

lemma pack_H: "pack_item CHR ''H'' (PInt v) = pack_uint 2 v"
  by simp

lemma pack_B: "pack_item CHR ''B'' (PInt v) = pack_uint 1 v"
  by simp

lemma pack_c: "pack_item CHR ''c'' (PChar ch) = Inr [of_char ch]"
  by simp

lemma struct_pack_lt: "struct_pack (CHR ''<'' # codes) args = pack_items codes args"
  by (simp add: struct_pack_def)

lemma pack_c_if:
  "pack_items codes args = (if c then Inr r else Inl StructError) \<Longrightarrow>
   pack_items (CHR ''c'' # codes) (PChar ch # args) =
     (if c then Inr (of_char ch # r) else Inl StructError)"
  by simp

lemma pack_I_if:
  "pack_items codes args = (if c then Inr r else Inl StructError) \<Longrightarrow>
   pack_items (CHR ''I'' # codes) (PInt v # args) =
     (if in_range 4 v \<and> c then Inr (le_bytes 4 (nat v) @ r) else Inl StructError)"
  by (simp add: pack_uint_if)

lemma pack_H_if:
  "pack_items codes args = (if c then Inr r else Inl StructError) \<Longrightarrow>
   pack_items (CHR ''H'' # codes) (PInt v # args) =
     (if in_range 2 v \<and> c then Inr (le_bytes 2 (nat v) @ r) else Inl StructError)"
  by (simp add: pack_uint_if)

lemma pack_B_if:
  "pack_items codes args = (if c then Inr r else Inl StructError) \<Longrightarrow>
   pack_items (CHR ''B'' # codes) (PInt v # args) =
     (if in_range 1 v \<and> c then Inr (le_bytes 1 (nat v) @ r) else Inl StructError)"
  by (simp add: pack_uint_if)

lemma pack_I_last:
  "pack_items [CHR ''I''] [PInt v] = (if in_range 4 v then Inr (le_bytes 4 (nat v)) else Inl StructError)"
  by (simp add: pack_uint_if)

lemma pack_B_last:
  "pack_items [CHR ''B''] [PInt v] = (if in_range 1 v then Inr (le_bytes 1 (nat v)) else Inl StructError)"
  by (simp add: pack_uint_if)

lemmas pack_rules = pack_I_last pack_B_last pack_c_if pack_I_if pack_H_if pack_B_if

lemma pack_file_header:
  "struct_pack ''<ccIHHI'' [PChar a, PChar b, PInt x, PInt y, PInt z, PInt v] =
     (if in_range 4 x \<and> in_range 2 y \<and> in_range 2 z \<and> in_range 4 v
      then Inr (of_char a # of_char b # le_bytes 4 (nat x) @ le_bytes 2 (nat y)
                @ le_bytes 2 (nat z) @ le_bytes 4 (nat v))
      else Inl StructError)"
  unfolding struct_pack_lt by (intro pack_rules)

lemma pack_info_header:
  "struct_pack ''<IIIHHIIIIII''
     [PInt a, PInt b, PInt c, PInt d, PInt e, PInt f, PInt g, PInt h, PInt i, PInt j, PInt k] =
     (if in_range 4 a \<and> in_range 4 b \<and> in_range 4 c \<and> in_range 2 d \<and> in_range 2 e \<and>
         in_range 4 f \<and> in_range 4 g \<and> in_range 4 h \<and> in_range 4 i \<and> in_range 4 j \<and>
         in_range 4 k
      then Inr (le_bytes 4 (nat a) @ le_bytes 4 (nat b) @ le_bytes 4 (nat c) @ le_bytes 2 (nat d)
                @ le_bytes 2 (nat e) @ le_bytes 4 (nat f) @ le_bytes 4 (nat g) @ le_bytes 4 (nat h)
                @ le_bytes 4 (nat i) @ le_bytes 4 (nat j) @ le_bytes 4 (nat k))
      else Inl StructError)"
  unfolding struct_pack_lt by (intro pack_rules)

lemma le_bytes_1: "le_bytes 1 n = [of_nat (n mod 256)]"
  by simp

lemma pack_palette_entry:
  "struct_pack ''<BBBB'' [PInt a, PInt b, PInt c, PInt d] =
     (if in_range 1 a \<and> in_range 1 b \<and> in_range 1 c \<and> in_range 1 d
      then Inr (le_bytes 1 (nat a) @ le_bytes 1 (nat b) @ le_bytes 1 (nat c) @ le_bytes 1 (nat d))
      else Inl StructError)"
  unfolding struct_pack_lt by (intro pack_rules)

lemma pack_white: "struct_pack ''<BBBB'' [PInt 0xff, PInt 0xff, PInt 0xff, PInt 0] = Inr [0xff, 0xff, 0xff, 0]"
  by (simp add: pack_palette_entry in_range_def le_bytes_1)

lemma pack_black: "struct_pack ''<BBBB'' [PInt 0, PInt 0, PInt 0, PInt 0] = Inr [0, 0, 0, 0]"
  by (simp add: pack_palette_entry in_range_def le_bytes_1)

lemma in_range_small: "in_range 4 0" "in_range 2 0" "in_range 4 40" "in_range 2 1"
  "in_range 4 54" "in_range 4 62" "in_range 2 24" "in_range 4 2"
  by (simp_all add: in_range_def)

lemma in_range_plus: "in_range 4 (int n + 62) \<Longrightarrow> in_range 4 (int n)"
  "in_range 4 (int n + 54) \<Longrightarrow> in_range 4 (int n)"
  by (simp_all add: in_range_def)

lemma BMP_write_image_eq:
  "BMP_write_image fmt job file =
     (if bmp_ok fmt job then Inr (file @ bmp_bytes fmt job) else Inl StructError)"
proof (cases "kind fmt")
  case PackedBits
  then have b: "bpp fmt = 1" by (simp add: bpp_def)
  show ?thesis
  proof (cases "bmp_ok fmt job")
    case True
    then show ?thesis
      by (simp add: BMP_write_image_def Let_def b pack_file_header pack_info_header pack_white
            pack_black bmp_ok_def bmp_bytes_def palette_entries_def in_range_def nat_add_distrib)
  next
    case False
    then show ?thesis
      by (auto simp add: BMP_write_image_def Let_def b pack_file_header pack_info_header pack_white
            pack_black bmp_ok_def palette_entries_def in_range_def)
  qed
next
  case Rgb
  then have b: "bpp fmt = 24" by (simp add: bpp_def)
  show ?thesis
  proof (cases "bmp_ok fmt job")
    case True
    then show ?thesis
      by (simp add: BMP_write_image_def Let_def b pack_file_header pack_info_header
            bmp_ok_def bmp_bytes_def palette_entries_def in_range_def nat_add_distrib)
  next
    case False
    then show ?thesis
      by (auto simp add: BMP_write_image_def Let_def b pack_file_header pack_info_header
            bmp_ok_def palette_entries_def in_range_def)
  qed
qed

lemma field_le_bytes:
  "length pre = off \<Longrightarrow> n < 256 ^ k \<Longrightarrow> field off k (pre @ le_bytes k n @ post) = n"
  by (simp add: field_def le_value_le_bytes)

lemma bmp_fields:
  assumes ok: "bmp_ok fmt job"
  shows "take 2 (bmp_bytes fmt job) = [of_char CHR ''B'', of_char CHR ''M'']"
    and "field 2 4 (bmp_bytes fmt job) = length (render job fmt 4) + (54 + 4 * palette_entries fmt)"
    and "field 6 2 (bmp_bytes fmt job) = 0"
    and "field 8 2 (bmp_bytes fmt job) = 0"
    and "field 10 4 (bmp_bytes fmt job) = 54 + 4 * palette_entries fmt"
    and "field 14 4 (bmp_bytes fmt job) = 40"
    and "field 18 4 (bmp_bytes fmt job) = fst (size job)"
    and "field 22 4 (bmp_bytes fmt job) = snd (size job)"
    and "field 26 2 (bmp_bytes fmt job) = 1"
    and "field 28 2 (bmp_bytes fmt job) = bpp fmt"
    and "field 30 4 (bmp_bytes fmt job) = 0"
    and "field 34 4 (bmp_bytes fmt job) = length (render job fmt 4)"
    and "int (field 38 4 (bmp_bytes fmt job)) = dpm_of_dpi (dpi job)"
    and "int (field 42 4 (bmp_bytes fmt job)) = dpm_of_dpi (dpi job)"
    and "field 46 4 (bmp_bytes fmt job) = palette_entries fmt"
    and "field 50 4 (bmp_bytes fmt job) = palette_entries fmt"
proof -
  have r: "length (render job fmt 4) < 2 ^ 32" "fst (size job) < 2 ^ 32" "snd (size job) < 2 ^ 32"
    "nat (dpm_of_dpi (dpi job)) < 2 ^ 32" "0 \<le> dpm_of_dpi (dpi job)"
    "length (render job fmt 4) + (54 + 4 * palette_entries fmt) < 2 ^ 32"
    using ok by (auto simp add: bmp_ok_def)
  have p: "palette_entries fmt < 2 ^ 32" "54 + 4 * palette_entries fmt < 2 ^ 32" "bpp fmt < 2 ^ 16"
    by (simp_all add: palette_entries_def bpp_def split: pixel_kind.splits)
  show "take 2 (bmp_bytes fmt job) = [of_char CHR ''B'', of_char CHR ''M'']"
    by (simp add: bmp_bytes_def)
  show "field 2 4 (bmp_bytes fmt job) = length (render job fmt 4) + (54 + 4 * palette_entries fmt)"
    using r p by (simp add: bmp_bytes_def field_def le_value_le_bytes)
  show "field 6 2 (bmp_bytes fmt job) = 0"
    using r p by (simp add: bmp_bytes_def field_def le_value_le_bytes)
  show "field 8 2 (bmp_bytes fmt job) = 0"
    using r p by (simp add: bmp_bytes_def field_def le_value_le_bytes)
  show "field 10 4 (bmp_bytes fmt job) = 54 + 4 * palette_entries fmt"
    using r p by (simp add: bmp_bytes_def field_def le_value_le_bytes)
  show "field 14 4 (bmp_bytes fmt job) = 40"
    using r p by (simp add: bmp_bytes_def field_def le_value_le_bytes)
  show "field 18 4 (bmp_bytes fmt job) = fst (size job)"
    using r p by (simp add: bmp_bytes_def field_def le_value_le_bytes)
  show "field 22 4 (bmp_bytes fmt job) = snd (size job)"
    using r p by (simp add: bmp_bytes_def field_def le_value_le_bytes)
  show "field 26 2 (bmp_bytes fmt job) = 1"
    using r p by (simp add: bmp_bytes_def field_def le_value_le_bytes)
  show "field 28 2 (bmp_bytes fmt job) = bpp fmt"
    using r p by (simp add: bmp_bytes_def field_def le_value_le_bytes)
  show "field 30 4 (bmp_bytes fmt job) = 0"
    using r p by (simp add: bmp_bytes_def field_def le_value_le_bytes)
  show "field 34 4 (bmp_bytes fmt job) = length (render job fmt 4)"
    using r p by (simp add: bmp_bytes_def field_def le_value_le_bytes)
  show "int (field 38 4 (bmp_bytes fmt job)) = dpm_of_dpi (dpi job)"
    using r p by (simp add: bmp_bytes_def field_def le_value_le_bytes)
  show "int (field 42 4 (bmp_bytes fmt job)) = dpm_of_dpi (dpi job)"
    using r p by (simp add: bmp_bytes_def field_def le_value_le_bytes)
  show "field 46 4 (bmp_bytes fmt job) = palette_entries fmt"
    using r p by (simp add: bmp_bytes_def field_def le_value_le_bytes)
  show "field 50 4 (bmp_bytes fmt job) = palette_entries fmt"
    using r p by (simp add: bmp_bytes_def field_def le_value_le_bytes)
qed

lemma bmp_tail:
  "drop 54 (bmp_bytes fmt job) =
     (if bpp fmt = 1 then [0xff, 0xff, 0xff, 0, 0, 0, 0, 0] else []) @ render job fmt 4"
  by (simp add: bmp_bytes_def)

subsection \<open>The rounding of the resolution\<close>

lemma bit_length_bounds: "0 < n \<Longrightarrow> 2 ^ (bit_length n - 1) \<le> n \<and> n < 2 ^ bit_length n"
proof (induction n rule: bit_length.induct)
  case (1 n)
  show ?case
  proof (cases "n div 2 = 0")
    case True
    with 1(2) have "n = 1" by (simp add: div_eq_0_iff) 
    then show ?thesis by (simp add: bit_length.simps)
  next
    case False
    with 1 have ih: "2 ^ (bit_length (n div 2) - 1) \<le> n div 2" "n div 2 < 2 ^ bit_length (n div 2)"
      by simp_all
    have pos: "0 < bit_length (n div 2)"
      using False by (simp add: bit_length.simps [of "n div 2"])
    have bl: "bit_length n = Suc (bit_length (n div 2))"
      using 1(2) by (simp add: bit_length.simps [of n])
    have "2 * 2 ^ (bit_length (n div 2) - 1) \<le> n"
      using ih(1) by linarith
    moreover have "2 * 2 ^ (bit_length (n div 2) - 1) = (2::nat) ^ bit_length (n div 2)"
      using pos by (cases "bit_length (n div 2)") simp_all
    moreover have "n < 2 * 2 ^ bit_length (n div 2)"
      using ih(2) by linarith
    ultimately show ?thesis by (simp add: bl)
  qed
qed

lemma binade_bounds:
  assumes "1 \<le> x"
  shows "0 \<le> binade x" and "2 ^ nat (binade x) \<le> x" and "x < 2 ^ (nat (binade x) + 1)"
proof -
  let ?n = "nat \<lfloor>x\<rfloor>"
  have n: "0 < ?n" using assms by simp
  have fl1: "of_nat ?n \<le> x" using assms by simp
  have fl2: "x < of_nat ?n + 1" using assms by simp linarith
  have b: "binade x = int (bit_length ?n) - 1" using assms by (simp add: binade_def)
  have pos: "0 < bit_length ?n" using n by (simp add: bit_length.simps [of ?n])
  from pos show "0 \<le> binade x" by (simp add: b)
  have e: "nat (binade x) = bit_length ?n - 1" using pos by (simp add: b)
  from bit_length_bounds [OF n] have l: "2 ^ (bit_length ?n - 1) \<le> ?n" and h: "?n < 2 ^ bit_length ?n"
    by simp_all
  from l have "(of_nat (2 ^ (bit_length ?n - 1)) :: rat) \<le> of_nat ?n"
    by (simp only: of_nat_le_iff)
  then have "(2::rat) ^ (bit_length ?n - 1) \<le> of_nat ?n"
    by simp
  from this fl1 have "2 ^ (bit_length ?n - 1) \<le> x" by (rule order_trans)
  then show "2 ^ nat (binade x) \<le> x" unfolding e .
  have "?n + 1 \<le> 2 ^ bit_length ?n" using h by linarith
  then have "(of_nat (?n + 1) :: rat) \<le> of_nat (2 ^ bit_length ?n)"
    by (simp only: of_nat_le_iff)
  then have "(of_nat ?n + 1 :: rat) \<le> 2 ^ bit_length ?n"
    by simp
  moreover have "nat (binade x) + 1 = bit_length ?n" using pos by (simp add: e)
  ultimately show "x < 2 ^ (nat (binade x) + 1)" using fl2 by simp
qed

lemma binade_unique:
  assumes "1 \<le> x" "2 ^ k \<le> x" "x < 2 ^ (k + 1)"
  shows "binade x = int k"
proof -
  from binade_bounds [OF assms(1)]
  have b: "0 \<le> binade x" "2 ^ nat (binade x) \<le> x" "x < 2 ^ (nat (binade x) + 1)" .
  have "(2::rat) ^ k < 2 ^ (nat (binade x) + 1)" using assms(2) b(3) by linarith
  then have 1: "k < nat (binade x) + 1" by (rule power_less_imp_less_exp [rotated]) simp
  have "(2::rat) ^ nat (binade x) < 2 ^ (k + 1)" using assms(3) b(2) by linarith
  then have 2: "nat (binade x) < k + 1" by (rule power_less_imp_less_exp [rotated]) simp
  from 1 2 b(1) show ?thesis by linarith
qed

lemma rhe_bounds: "of_int (round_half_even x) \<le> x + 1 / 2" "x - 1 / 2 \<le> of_int (round_half_even x)"
  by (auto simp: round_half_even_def Let_def) (linarith+)

lemma rhe_of_int: "round_half_even (of_int n) = n"
  by (simp add: round_half_even_def)

lemma rhe_ge: "of_int n \<le> x \<Longrightarrow> n \<le> round_half_even x"
proof -
  assume "of_int n \<le> x"
  then have "n \<le> \<lfloor>x\<rfloor>" by (simp add: le_floor_iff)
  then show ?thesis by (auto simp: round_half_even_def Let_def)
qed

lemma rhe_le: "x \<le> of_int n \<Longrightarrow> round_half_even x \<le> n"
proof -
  assume a: "x \<le> of_int n"
  show ?thesis
  proof (cases "x = of_int n")
    case True
    then show ?thesis by (simp add: rhe_of_int)
  next
    case False
    with a have "x < of_int n" by simp
    then have "\<lfloor>x\<rfloor> < n" by (simp add: floor_less_iff)
    then show ?thesis by (auto simp: round_half_even_def Let_def)
  qed
qed

lemma pow2_minus: "k \<le> 52 \<Longrightarrow> pow2 (int k - 52) = 1 / 2 ^ (52 - k)"
  by (cases "k = 52") (simp_all add: pow2_def nat_diff_distrib)

lemma fl_normal:
  assumes "1 \<le> x" "2 ^ k \<le> x" "x < 2 ^ (k + 1)" "k \<le> 52"
  shows "fl x = of_int (round_half_even (x * 2 ^ (52 - k))) / 2 ^ (52 - k)"
proof -
  have b: "binade x = int k" using assms(1-3) by (rule binade_unique)
  have "max (int k) (- 1022) = int k" by simp
  moreover have "x \<noteq> 0" "sgn x = 1" "\<bar>x\<bar> = x" using assms(1) by simp_all
  ultimately show ?thesis
    by (simp add: fl_def b pow2_minus [OF assms(4)] Let_def)
qed

lemma floor_rat_numeral: "\<lfloor>numeral a / numeral b :: rat\<rfloor> = numeral a div numeral b"
  by (metis floor_divide_of_int_eq of_int_numeral)

lemma bl39: "bit_length 39 = 6"
  by (simp add: bit_length.simps)

lemma bl1: "bit_length (Suc 0) = 1"
  by (simp add: bit_length.simps)

lemma binade_literal: "binade (3937 / 100) = 5"
  by (simp add: binade_def bl39 floor_rat_numeral)

lemma fl_literal: "fl (3937 / 100) = 5540834916549263 / 140737488355328"
  by (simp add: fl_def binade_literal pow2_def round_half_even_def Let_def floor_rat_numeral)

lemma fl_half: "fl (1 / 2) = 1 / 2"
  by (simp add: fl_def binade_def pow2_def round_half_even_def Let_def bl1)

lemma fl_zero: "fl 0 = 0"
  by (simp add: fl_def)

lemma dpm_zero: "dpm_of_dpi 0 = py_round (fl (of_nat 0 * fl (3937 / 100)))"
  by (simp add: dpm_of_dpi_def py_round_def fl_zero fl_half py_int_of_float_def)


lemma dpm_round:
  assumes d: "d < 2 ^ 31"
  shows "dpm_of_dpi d = py_round (fl (of_nat d * fl (3937 / 100)))"
proof (cases "d = 0")
  case True
  then show ?thesis using dpm_zero by simp
next
  case False
  define y :: rat where "y = of_nat d * (5540834916549263 / 140737488355328)"
  have d1: "(1::rat) \<le> of_nat d" using False by simp
  from d have "(of_nat d :: rat) < of_nat (2 ^ 31)"
    by (simp only: of_nat_less_iff)
  then have d2: "(of_nat d :: rat) < 2 ^ 31"
    by simp
  have y_lo: "32 \<le> y" using d1 by (simp add: y_def)
  have y_hi: "y < 2 ^ 37" using d2 by (simp add: y_def)
  have y1: "1 \<le> y" using y_lo by simp
  define k where "k = nat (binade y)"
  from binade_bounds [OF y1] have kb: "2 ^ k \<le> y" "y < 2 ^ (k + 1)"
    by (simp_all add: k_def)
  have "(2::rat) ^ k < 2 ^ 37" using kb(1) y_hi by linarith
  then have k_hi: "k < 37" by (rule power_less_imp_less_exp [rotated]) simp
  have "(2::rat) ^ 5 < 2 ^ (k + 1)" using kb(2) y_lo by simp
  then have k_lo: "5 < k + 1" by (rule power_less_imp_less_exp [rotated]) simp
  define j where "j = 52 - k"
  have j: "k + j = 52" "16 \<le> j" "j = Suc (j - 1)" using k_hi by (simp_all add: j_def)
  define P :: rat where "P = 2 ^ j"
  define H :: rat where "H = 2 ^ (j - 1)"
  define Q :: rat where "Q = 2 ^ k"
  have QP: "Q * P = 2 ^ 52" unfolding Q_def P_def using j(1) by (simp add: power_add [symmetric])
  have PH: "P = 2 * H" unfolding P_def H_def using j(3) by (metis power_Suc)
  have Hpos: "0 < H" by (simp add: H_def)
  have Ppos: "0 < P" by (simp add: P_def)
  have "(2::rat) ^ 15 \<le> 2 ^ (j - 1)" by (rule power_increasing) (use j(2) in simp_all)
  then have Hbig: "32768 \<le> H" by (simp add: H_def)
  define M where "M = round_half_even (y * P)"
  have fly: "fl y = of_int M / P"
    unfolding M_def P_def j_def by (rule fl_normal [OF y1 kb]) (use k_hi in simp)
  have "of_int (2 ^ 52) \<le> y * P"
  proof -
    have "Q * P \<le> y * P" using kb(1) Hpos PH by (simp add: Q_def)
    then show ?thesis by (simp add: QP)
  qed
  then have M_lo: "2 ^ 52 \<le> M" unfolding M_def by (rule rhe_ge)
  have "y * P \<le> of_int (2 ^ 53)"
  proof -
    have "y * P \<le> (2 * Q) * P" using kb(2) Hpos PH by (simp add: Q_def)
    also have "\<dots> = 2 ^ 53" using QP by (simp add: mult.commute)
    finally show ?thesis by simp
  qed
  then have M_hi: "M \<le> 2 ^ 53" unfolding M_def by (rule rhe_le)
  define x where "x = fl y + 1 / 2"
  have x_eq: "x = (of_int M + H) / P" unfolding x_def fly using Hpos PH by (simp add: field_simps)
  have xP: "x * P = of_int M + H" unfolding x_eq using Hpos PH by simp
  have H_int: "H = of_int (2 ^ (j - 1))" by (simp add: H_def)
  have goal: "py_int_of_float (fl x) = \<lfloor>x\<rfloor>"
  proof (cases "of_int M + H < (2::rat) ^ 53")
    case True
    have lo: "2 ^ k \<le> x"
    proof -
      have "Q * P \<le> x * P" using M_lo Hpos by (simp add: xP QP)
      then show ?thesis using Hpos PH by (simp add: Q_def)
    qed
    have hi: "x < 2 ^ (k + 1)"
    proof -
      have "x * P < (2 * Q) * P" using True QP by (simp add: xP)
      then show ?thesis using Hpos PH by (simp add: Q_def)
    qed
    have "(1::rat) \<le> 2 ^ k" by (rule one_le_power) simp
    with lo have x1: "1 \<le> x" by linarith
    have "fl x = of_int (round_half_even (x * P)) / P"
      unfolding P_def j_def by (rule fl_normal [OF x1 lo hi]) (use k_hi in simp)
    also have "x * P = of_int (M + 2 ^ (j - 1))" by (simp add: xP H_int)
    also have "round_half_even (of_int (M + 2 ^ (j - 1))) = M + 2 ^ (j - 1)" by (rule rhe_of_int)
    also have "of_int (M + 2 ^ (j - 1)) / P = x" by (simp add: x_eq H_int)
    finally have "fl x = x" .
    then show ?thesis using x1 by (simp add: py_int_of_float_def)
  next
    case False
    then have big: "2 ^ 53 \<le> of_int M + H" by simp
    have "(of_int M :: rat) \<le> of_int (2 ^ 53)"
      using M_hi by (simp only: of_int_le_iff)
    then have MH: "of_int M + H \<le> 2 ^ 53 + H" by simp
    define B :: rat where "B = 2 * Q"
    have BP: "B * P = 2 ^ 53" and BH: "B * H = 2 ^ 52" using QP PH by (simp_all add: B_def)
    have lo: "2 ^ (k + 1) \<le> x"
    proof -
      have "B * P \<le> x * P" using big by (simp add: xP BP)
      then show ?thesis using Hpos PH by (simp add: B_def Q_def)
    qed
    have x_le: "x \<le> B + 1 / 2"
    proof -
      have hP: "(1 / 2) * P = H" using PH by simp
      have "x * P = of_int M + H" by (rule xP)
      also have "\<dots> \<le> 2 ^ 53 + H" by (rule MH)
      also have "\<dots> = (B + 1 / 2) * P" using BP hP by (simp add: distrib_right)
      finally show ?thesis using Ppos by simp
    qed
    have "(1::rat) \<le> 2 ^ k" by (rule one_le_power) simp
    then have B1: "1 \<le> B" unfolding B_def Q_def by linarith
    have hi: "x < 2 ^ (k + 1 + 1)"
      using x_le B1 by (simp add: B_def Q_def)
    have x1: "1 \<le> x" using lo B1 by (simp add: B_def Q_def)
    have jm: "52 - (k + 1) = j - 1" by (simp add: j_def)
    define N where "N = round_half_even (x * H)"
    have flx: "fl x = of_int N / H"
      unfolding N_def H_def jm [symmetric] by (rule fl_normal [OF x1 lo hi]) (use k_hi in simp)
    have "of_int (2 ^ 52) \<le> x * H"
    proof -
      have "B * H \<le> x * H" using lo Hpos by (simp add: B_def Q_def)
      then show ?thesis by (simp add: BH)
    qed
    then have N_lo: "2 ^ 52 \<le> N" unfolding N_def by (rule rhe_ge)
    have N_hi: "of_int N \<le> x * H + 1 / 2" unfolding N_def by (rule rhe_bounds)
    have "(of_int (2 ^ 52) :: rat) \<le> of_int N"
      using N_lo by (simp only: of_int_le_iff)
    then have "B * H \<le> of_int N" by (simp add: BH)
    then have f_lo: "B \<le> fl x" unfolding flx using Hpos by (simp add: field_simps)
    have "of_int N / H \<le> x + 1 / (2 * H)" using N_hi Hpos by (simp add: field_simps)
    moreover have "1 / (2 * H) < 1 / 2" using Hbig Hpos by (simp add: field_simps)
    ultimately have f_hi: "fl x < B + 1" unfolding flx using x_le by linarith
    have B_int: "B = of_int (2 ^ (k + 1))" by (simp add: B_def Q_def)
    have "\<lfloor>fl x\<rfloor> = 2 ^ (k + 1)"
      by (rule floor_unique) (use f_lo f_hi B_int in simp_all)
    moreover have "\<lfloor>x\<rfloor> = 2 ^ (k + 1)"
      by (rule floor_unique) (use lo x_le B_int in simp_all)
    moreover have "0 \<le> fl x" using f_lo B1 by simp
    ultimately show ?thesis by (simp add: py_int_of_float_def)
  qed
  show ?thesis
    using goal by (simp add: dpm_of_dpi_def py_round_def fl_literal x_def y_def)
qed

subsection \<open>The header\<close>

lemma get_output_image_bmp: "get_output_image ''bmp'' fmt job = BMP_write_image fmt job []"
  unfolding get_output_image_def BMP_write_image_def append_Nil by simp

lemma bit_length_numeral:
  "bit_length (numeral (Num.Bit0 n)) = Suc (bit_length (numeral n))"
  "bit_length (numeral (Num.Bit1 n)) = Suc (bit_length (numeral n))"
  "bit_length (Suc 0) = 1"
  "bit_length 0 = 0"
proof -
  have "(numeral (Num.Bit0 n) :: nat) div 2 = numeral n" by simp
  then show "bit_length (numeral (Num.Bit0 n)) = Suc (bit_length (numeral n))"
    by (simp add: bit_length.simps [of "numeral (Num.Bit0 n)"])
  have "(numeral (Num.Bit1 n) :: nat) div 2 = numeral n" by simp
  then show "bit_length (numeral (Num.Bit1 n)) = Suc (bit_length (numeral n))"
    by (simp add: bit_length.simps [of "numeral (Num.Bit1 n)"])
  show "bit_length (Suc 0) = 1"
    by (simp add: bit_length.simps [of "Suc 0"] bit_length.simps [of 0])
  show "bit_length 0 = 0"
    by (simp add: bit_length.simps [of 0])
qed

lemma fl_300: "fl (of_nat 300 * fl (3937 / 100)) = 11811"
proof -
  have b: "binade (415562618741194725 / 35184372088832) = 13"
    by (simp add: binade_def floor_rat_numeral bit_length_numeral)
  show ?thesis
    by (simp add: fl_literal) (simp add: fl_def b pow2_def round_half_even_def Let_def floor_rat_numeral)
qed

lemma fl_50: "fl (of_nat 50 * fl (3937 / 100)) = 8657554557108223 / 4398046511104"
proof -
  have b: "binade (138520872913731575 / 70368744177664) = 10"
    by (simp add: binade_def floor_rat_numeral bit_length_numeral)
  show ?thesis
    by (simp add: fl_literal) (simp add: fl_def b pow2_def round_half_even_def Let_def floor_rat_numeral)
qed

lemma render1: "render job1 fmt1 4 = [0x80, 0, 0, 0]"
proof -
  have "replicate 3 (0::byte) = [0, 0, 0]"
    by (simp add: numeral_3_eq_3)
  then show ?thesis
    by (simp add: render_def job1_def fmt1_def packed_row_def packed_byte_def pad_row_def
          round_up_def upt_rec)
qed

lemma dpm_300: "dpm_of_dpi 300 = 11811"
proof -
  have "dpm_of_dpi 300 = py_round (fl (of_nat 300 * fl (3937 / 100)))"
    by (rule dpm_round) simp
  also have "\<dots> = py_round 11811"
    by (simp only: fl_300)
  also have "\<dots> = 11811"
    by (simp add: py_round_def floor_rat_numeral)
  finally show ?thesis .
qed

lemma le_bytes_Suc2: "le_bytes (Suc (Suc 0)) n = [of_nat (n mod 256), of_nat (n div 256 mod 256)]"
  by simp

lemma le_bytes_Suc4:
  "le_bytes (Suc (Suc (Suc (Suc 0)))) n =
     [of_nat (n mod 256), of_nat (n div 256 mod 256),
      of_nat (n div 256 div 256 mod 256), of_nat (n div 256 div 256 div 256 mod 256)]"
  by simp

lemma le_bytes_2: "le_bytes 2 n = [of_nat (n mod 256), of_nat (n div 256 mod 256)]"
  using le_bytes_Suc2 by (simp only: numeral_2_eq_2)

lemma four: "(4::nat) = Suc (Suc (Suc (Suc 0)))"
  by simp

lemma le_bytes_4:
  "le_bytes 4 n = [of_nat (n mod 256), of_nat (n div 256 mod 256),
                   of_nat (n div 256 div 256 mod 256), of_nat (n div 256 div 256 div 256 mod 256)]"
  by (subst four) (rule le_bytes_Suc4)

lemma BMP_write_image_1: "BMP_write_image fmt1 job1 [] = Inr ref1"
proof -
  have b: "bpp fmt1 = 1" "palette_entries fmt1 = 2"
    by (simp_all add: bpp_def fmt1_def palette_entries_def)
  have j: "dpi job1 = 300" "size job1 = (1, 1)"
    by (simp_all add: job1_def)
  have ok: "bmp_ok fmt1 job1"
    by (simp add: bmp_ok_def render1 b j dpm_300)
  have "bmp_bytes fmt1 job1 = ref1"
    by (simp add: bmp_bytes_def render1 b j dpm_300 le_bytes_2 le_bytes_4 ref1_def)
  with ok show ?thesis
    by (simp add: BMP_write_image_eq)
qed

text \<open>
  C8: when the encoder completes, the file starts with the magic \<open>BM\<close>, the file
  size (pixel data plus the header size, 54 plus 4 bytes for each palette entry),
  the offset of the pixel data (the header size), the header size 40, the width and
  the height, 1 plane, the bit depth, compression 0, and twice the resolution
  \<open>int(dpi * 39.37 + 0.5)\<close>, which for a resolution below \<open>2 ^ 31\<close> is the double
  product rounded to the nearest integer; every field little-endian. At depth 1 a
  palette of white then black follows; at depth 24 there is no palette and the pixel
  data has \<open>height * round_up 4 (width * 3)\<close> bytes. \<open>get_output_image\<close> writes
  the same file.
\<close>

theorem BMP_write_image_header:
  assumes "BMP_write_image fmt job [] = Inr out"
  shows "get_output_image ''bmp'' fmt job = Inr out \<and>
    take 2 out = bytes_of ''BM'' \<and>
    field 2 4 out = length (render job fmt 4) + (54 + 4 * palette_entries fmt) \<and>
    field 10 4 out = 54 + 4 * palette_entries fmt \<and>
    field 14 4 out = 40 \<and>
    field 18 4 out = fst (size job) \<and>
    field 22 4 out = snd (size job) \<and>
    field 26 2 out = 1 \<and>
    field 28 2 out = bpp fmt \<and>
    field 30 4 out = 0 \<and>
    field 34 4 out = length (render job fmt 4) \<and>
    int (field 38 4 out) = dpm_of_dpi (dpi job) \<and>
    int (field 42 4 out) = dpm_of_dpi (dpi job) \<and>
    (dpi job < 2 ^ 31 \<longrightarrow>
       dpm_of_dpi (dpi job) = py_round (fl (of_nat (dpi job) * fl (3937 / 100)))) \<and>
    field 46 4 out = palette_entries fmt \<and>
    field 50 4 out = palette_entries fmt \<and>
    (bpp fmt = 1 \<or> bpp fmt = 24) \<and>
    (bpp fmt = 1 \<longrightarrow>
       palette_entries fmt = 2 \<and>
       take 8 (drop 54 out) = [0xff, 0xff, 0xff, 0, 0, 0, 0, 0] \<and>
       drop 62 out = render job fmt 4) \<and>
    (bpp fmt = 24 \<longrightarrow>
       palette_entries fmt = 0 \<and>
       drop 54 out = render job fmt 4 \<and>
       length (render job fmt 4) = snd (size job) * round_up 4 (fst (size job) * 3))"
proof -
  from assms have ok: "bmp_ok fmt job" and out: "out = bmp_bytes fmt job"
    by (simp_all add: BMP_write_image_eq split: if_splits)
  have rgb: "bpp fmt = 24 \<Longrightarrow> kind fmt = Rgb"
    by (simp add: bpp_def split: pixel_kind.splits)
  have kinds: "bpp fmt = 1 \<or> bpp fmt = 24"
    by (simp add: bpp_def split: pixel_kind.splits)
  have tail1: "bpp fmt = 1 \<Longrightarrow> take 8 (drop 54 out) = [0xff, 0xff, 0xff, 0, 0, 0, 0, 0]"
    and tail2: "bpp fmt = 1 \<Longrightarrow> drop 62 out = render job fmt 4"
    and tail3: "bpp fmt = 24 \<Longrightarrow> drop 54 out = render job fmt 4"
    by (simp_all add: out bmp_bytes_def)
  show ?thesis
    using bmp_fields [OF ok] kinds tail1 tail2 tail3 dpm_round [of "dpi job"]
      length_render_rgb [OF rgb]
    by (simp add: out [symmetric] get_output_image_bmp assms bytes_of_def palette_entries_def)
qed

theorem BMP_write_image_header_witness:
  "BMP_write_image fmt1 job1 [] = Inr ref1 \<and>
   get_output_image ''bmp'' fmt1 job1 = Inr ref1 \<and>
   take 2 ref1 = bytes_of ''BM'' \<and>
   field 2 4 ref1 = 66 \<and> field 10 4 ref1 = 62 \<and> field 14 4 ref1 = 40 \<and>
   field 18 4 ref1 = 1 \<and> field 22 4 ref1 = 1 \<and> field 26 2 ref1 = 1 \<and>
   field 28 2 ref1 = 1 \<and> field 30 4 ref1 = 0 \<and>
   field 38 4 ref1 = 11811 \<and> field 42 4 ref1 = 11811 \<and>
   field 46 4 ref1 = 2 \<and> field 50 4 ref1 = 2 \<and>
   drop 62 ref1 = [0x80, 0, 0, 0]"
proof -
  have b: "bpp fmt1 = 1" "palette_entries fmt1 = 2"
    by (simp_all add: bpp_def fmt1_def palette_entries_def)
  have j: "dpi job1 = 300" "size job1 = (1, 1)"
    by (simp_all add: job1_def)
  from BMP_write_image_header [OF BMP_write_image_1] show ?thesis
    by (simp add: BMP_write_image_1 b j render1 dpm_300)
qed

end
